theory Spec2Isabelle
  imports Complex_Main
begin

section \<open>Data model of meshbridge.py\<close>

text \<open>
  Python strings are modelled as \<open>string\<close>, Python's unbounded integers as \<open>int\<close>.
  External objects (the socat child process, the Zeroconf registrar) are opaque to the
  program; what the program can observe of them, and how they answer its calls, is recorded
  in the handle.
\<close>

text \<open>
  A \<open>subprocess.Popen\<close> handle. \<open>poll\<close> is what \<open>Popen.poll()\<close> answers: \<open>None\<close> while the
  child runs, its return code once it has exited. \<open>ignores_sigterm\<close> says whether the child
  is still running three seconds after \<open>terminate()\<close>, in which case \<open>wait(timeout=3)\<close> raises
  \<open>TimeoutExpired\<close>.
\<close>

record popen =
  pid :: nat
  poll :: "int option"
  ignores_sigterm :: bool

text \<open>The arguments of \<open>ServiceInfo(...)\<close> in \<open>Bridge._start_mdns\<close>.\<close>

record service_info =
  si_type :: string
  si_name :: string
  si_addresses :: "string list"
  si_port :: int
  si_properties :: "(string \<times> string) list"
  si_server :: string

text \<open>A \<open>Zeroconf\<close> instance; \<open>unregister_raises\<close> says whether \<open>unregister_service\<close> raises.\<close>

record zeroconf =
  unregister_raises :: bool

text \<open>class \<open>SerialDevice\<close>.\<close>

record serial_device =
  path :: string
  description :: string
  node_name :: string

definition SerialDevice :: "string \<Rightarrow> string \<Rightarrow> serial_device" where
  "SerialDevice p d = \<lparr>path = p, description = d, node_name = []\<rparr>"

text \<open>class \<open>Bridge\<close>: the attributes set by \<open>__init__\<close>.\<close>

record bridge =
  device :: string
  port :: int
  node_id :: "string option"
  baud :: int
  process :: "popen option"
  zeroconf :: "zeroconf option"
  service_info :: "service_info option"

definition Bridge :: "string \<Rightarrow> int \<Rightarrow> string option \<Rightarrow> int \<Rightarrow> bridge" where
  "Bridge d p nid bd =
     \<lparr>device = d, port = p, node_id = nid, baud = bd,
      process = None, zeroconf = None, service_info = None\<rparr>"

text \<open>\<open>Bridge.is_running\<close>: \<open>self.process is not None and self.process.poll() is None\<close>.\<close>

definition is_running :: "bridge \<Rightarrow> bool" where
  "is_running b = (case process b of None \<Rightarrow> False | Some p \<Rightarrow> poll p = None)"

section \<open>Port allocator\<close>

text \<open>
  \<open>used_ports = {b.port for b in bridges if b.is_running()}\<close>, kept as the list of its
  elements; only membership is ever asked of it.
\<close>

definition used_ports :: "bridge list \<Rightarrow> int list" where
  "used_ports bridges = map port (filter is_running bridges)"

text \<open>The loop \<open>while port in used_ports: port += 1\<close>.\<close>

function next_port_loop :: "int \<Rightarrow> int list \<Rightarrow> int" where
  "next_port_loop p used = (if p \<in> set used then next_port_loop (p + 1) used else p)"
  by pat_completeness auto
termination
proof (relation "measure (\<lambda>(p, used). length (filter (\<lambda>q. p \<le> q) used))")
  show "wf (measure (\<lambda>(p, used). length (filter (\<lambda>q. p \<le> q) used)))"
    by simp
next
  fix p :: int and used :: "int list"
  assume mem: "p \<in> set used"
  have eq: "filter (\<lambda>q. p + 1 \<le> q) used = filter (\<lambda>q. p + 1 \<le> q) (filter (\<lambda>q. p \<le> q) used)"
    by (induction used) auto
  have "p \<in> set (filter (\<lambda>q. p \<le> q) used)"
    using mem by simp
  then have "length (filter (\<lambda>q. p + 1 \<le> q) (filter (\<lambda>q. p \<le> q) used))
               < length (filter (\<lambda>q. p \<le> q) used)"
    by (rule length_filter_less) simp
  with eq show "((p + 1, used), (p, used)) \<in> measure (\<lambda>(p, used). length (filter (\<lambda>q. p \<le> q) used))"
    by simp
qed

declare next_port_loop.simps [simp del]

definition get_next_available_port :: "int \<Rightarrow> bridge list \<Rightarrow> int" where
  "get_next_available_port start_port bridges = next_port_loop start_port (used_ports bridges)"

section \<open>Bridge: start and stop\<close>

text \<open>What the program does to the outside world, in the order it does it.\<close>

datatype event =
    RunStty string int
  | SpawnSocat int string
  | RegisterService service_info
  | MdnsWarning
  | StartError
  | UnregisterService service_info
  | ZeroconfClose
  | Terminate nat
  | Wait nat
  | Kill nat
  | OpenInterface string
  | CloseInterface
  | Sleep

text \<open>
  How the outside world answers one call of \<open>Bridge.start\<close>: whether \<open>stty\<close> exits with
  status 0, the handle \<open>Popen\<close> returns (\<open>None\<close>: it raises), the module flag
  \<open>ZEROCONF_AVAILABLE\<close>, the local address found through the UDP socket (\<open>None\<close>: a socket
  call raises), the instance \<open>Zeroconf()\<close> returns (\<open>None\<close>: it raises), and whether
  \<open>ServiceInfo(...)\<close> and \<open>register_service\<close> raise.
\<close>

record start_env =
  stty_ok :: bool
  popen_result :: "popen option"
  ZEROCONF_AVAILABLE :: bool
  local_ip :: "string option"
  new_zeroconf :: "zeroconf option"
  service_info_raises :: bool
  register_raises :: bool

text \<open>Truth value of an optional string: neither \<open>None\<close> nor empty.\<close>

definition truthy :: "string option \<Rightarrow> bool" where
  "truthy s = (case s of None \<Rightarrow> False | Some v \<Rightarrow> v \<noteq> [])"

text \<open>\<open>s.replace("!", "")\<close>, \<open>s[-4:]\<close> and \<open>s[:-7]\<close>.\<close>

definition remove_bang :: "string \<Rightarrow> string" where
  "remove_bang s = filter (\<lambda>c. c \<noteq> CHR ''!'') s"

definition last4 :: "string \<Rightarrow> string" where
  "last4 s = drop (length s - 4) s"

definition drop_last7 :: "string \<Rightarrow> string" where
  "drop_last7 s = take (length s - 7) s"

text \<open>
  \<open>Bridge._start_mdns\<close>. Every exception is caught inside and answered by a printed
  warning; the attributes assigned before the raise keep their values. With
  \<open>self.node_id\<close> equal to \<open>None\<close> the call of \<open>replace\<close> raises.
\<close>

definition start_mdns :: "start_env \<Rightarrow> bridge \<Rightarrow> event list \<times> bridge" where
  "start_mdns env b =
     (case node_id b of
        None \<Rightarrow> ([MdnsWarning], b)
      | Some nid \<Rightarrow>
          (let short_id = last4 (remove_bang nid);
               hostname = ''meshtastic_'' @ short_id @ ''.local.''
           in case local_ip env of
                None \<Rightarrow> ([MdnsWarning], b)
              | Some ip \<Rightarrow>
                  (case new_zeroconf env of
                     None \<Rightarrow> ([MdnsWarning], b)
                   | Some zc \<Rightarrow>
                       (let b1 = b\<lparr>zeroconf := Some zc\<rparr> in
                        if service_info_raises env then ([MdnsWarning], b1)
                        else
                          (let si = \<lparr>si_type = ''_meshtastic._tcp.local.'',
                                     si_name = drop_last7 hostname @ ''._meshtastic._tcp.local.'',
                                     si_addresses = [ip],
                                     si_port = port b,
                                     si_properties = [(''node_id'', nid), (''device'', device b)],
                                     si_server = hostname\<rparr>;
                               b2 = b1\<lparr>service_info := Some si\<rparr>
                           in if register_raises env
                              then ([RegisterService si, MdnsWarning], b2)
                              else ([RegisterService si], b2))))))"

text \<open>
  \<open>Bridge.start\<close>: the events, the returned boolean and the object afterwards.
  \<open>subprocess.run(..., check=True)\<close> raising, or \<open>Popen\<close> raising, ends in the
  \<open>except\<close> branch, which returns \<open>False\<close>.
\<close>

definition start :: "start_env \<Rightarrow> bridge \<Rightarrow> event list \<times> bool \<times> bridge" where
  "start env b =
     (if \<not> stty_ok env then ([RunStty (device b) (baud b), StartError], False, b)
      else case popen_result env of
             None \<Rightarrow>
               ([RunStty (device b) (baud b), SpawnSocat (port b) (device b), StartError], False, b)
           | Some p \<Rightarrow>
               (let b1 = b\<lparr>process := Some p\<rparr>;
                    (evs, b2) = (if ZEROCONF_AVAILABLE env \<and> truthy (node_id b1)
                                 then start_mdns env b1 else ([], b1))
                in ([RunStty (device b) (baud b), SpawnSocat (port b) (device b)] @ evs, True, b2)))"

text \<open>
  \<open>Bridge.stop\<close>: the events and the object afterwards. An exception of
  \<open>unregister_service\<close> skips \<open>close()\<close> and is swallowed; \<open>wait(timeout=3)\<close> returns at
  once for a child that has exited and raises \<open>TimeoutExpired\<close>, answered by \<open>kill()\<close>,
  for one that is still running after three seconds.
\<close>

definition stop_mdns :: "bridge \<Rightarrow> event list \<times> bridge" where
  "stop_mdns b =
     (case zeroconf b of
        None \<Rightarrow> ([], b)
      | Some zc \<Rightarrow>
          (case service_info b of
             None \<Rightarrow> ([], b)
           | Some si \<Rightarrow>
               ((if unregister_raises zc then [UnregisterService si]
                 else [UnregisterService si, ZeroconfClose]),
                b\<lparr>zeroconf := None, service_info := None\<rparr>)))"

definition stop_process :: "bridge \<Rightarrow> event list \<times> bridge" where
  "stop_process b =
     (case process b of
        None \<Rightarrow> ([], b)
      | Some p \<Rightarrow>
          ([Terminate (pid p), Wait (pid p)] @
           (if poll p = None \<and> ignores_sigterm p then [Kill (pid p)] else []),
           b\<lparr>process := None\<rparr>))"

definition stop :: "bridge \<Rightarrow> event list \<times> bridge" where
  "stop b =
     (let (ev1, b1) = stop_mdns b;
          (ev2, b2) = stop_process b1
      in (ev1 @ ev2, b2))"

section \<open>The registry: the list \<open>bridges\<close> of \<open>main\<close>\<close>

text \<open>\<open>active_device_paths = {b.device for b in bridges if b.is_running()}\<close>.\<close>

definition active_device_paths :: "bridge list \<Rightarrow> string list" where
  "active_device_paths bridges = map device (filter is_running bridges)"

text \<open>
  The loop \<open>for bridge in bridges: if bridge.is_running(): bridge.stop()\<close> of the
  menu entries \<open>s\<close> and \<open>q\<close> and of \<open>signal_handler\<close>: the events, and the objects of the
  list afterwards.
\<close>

fun stop_running :: "bridge list \<Rightarrow> event list \<times> bridge list" where
  "stop_running [] = ([], [])"
| "stop_running (b # bs) =
     (let (evs, bs') = stop_running bs
      in if is_running b
         then (let (ev, b') = stop b in (ev @ evs, b' # bs'))
         else (evs, b # bs'))"

text \<open>
  Menu entry \<open>s\<close> (taken only when \<open>bridges\<close> is non-empty): the loop above, then
  \<open>bridges.clear()\<close>. The result is the events, the Bridge objects as the loop left
  them, and the content of \<open>bridges\<close> afterwards.
\<close>

definition stop_all :: "bridge list \<Rightarrow> event list \<times> bridge list \<times> bridge list" where
  "stop_all bridges = (let (evs, objs) = stop_running bridges in (evs, objs, []))"

text \<open>\<open>signal_handler\<close>: the same loop, then \<open>sys.exit(0)\<close>; the list is not cleared.\<close>

definition signal_handler :: "bridge list \<Rightarrow> event list \<times> bridge list" where
  "signal_handler bridges = stop_running bridges"

text \<open>
  The text typed at the prompt \<open>TCP Port\<close>, after \<open>strip()\<close>: empty, rejected by \<open>int()\<close>,
  or the integer \<open>int()\<close> returns.
\<close>

datatype port_input = NoInput | BadInput | PortNumber int

datatype create_outcome =
    InvalidDevice
  | AlreadyRunning int
  | AttributeError
  | InvalidPort
  | Started
  | StartFailed

text \<open>
  The child of a Bridge can exit at any moment, and \<open>main\<close> polls more than once in one
  pass through the menu: \<open>active_device_paths\<close> is computed before the menu is shown and
  the choice is read, \<open>existing_bridge\<close> and \<open>get_next_available_port\<close> poll again after the
  choice was read. \<open>exited p\<close> is the return code of the child with process id \<open>p\<close> when it
  exits between the two polls; \<open>repoll exited b\<close> is the Bridge as the later poll finds it.
\<close>

definition repoll :: "(nat \<Rightarrow> int option) \<Rightarrow> bridge \<Rightarrow> bridge" where
  "repoll exited b =
     (case process b of
        None \<Rightarrow> b
      | Some p \<Rightarrow>
          (case poll p of
             Some rc \<Rightarrow> b
           | None \<Rightarrow> b\<lparr>process := Some (p\<lparr>poll := exited (pid p)\<rparr>)\<rparr>))"

text \<open>
  The branch \<open>choice.isdigit()\<close> of \<open>main\<close>, for \<open>device_index = int(choice) - 1\<close>:
  what is reported, and the list \<open>bridges\<close> afterwards. \<open>bridges\<close> carries the liveness read
  when \<open>active_device_paths\<close> was computed. \<open>existing_bridge\<close> is the first Bridge on the
  device that is running at the later poll; when there is none, \<open>next(..., None)\<close> yields
  \<open>None\<close>, reading \<open>existing_bridge.port\<close> raises \<open>AttributeError\<close>, and nothing in \<open>main\<close>
  catches it.
\<close>

definition create_bridge ::
  "start_env \<Rightarrow> (nat \<Rightarrow> int option) \<Rightarrow> bridge list \<Rightarrow> serial_device list \<Rightarrow> int
     \<Rightarrow> port_input \<Rightarrow> create_outcome \<times> bridge list" where
  "create_bridge env exited bridges devices device_index inp =
     (if 0 \<le> device_index \<and> device_index < int (length devices) then
        (let dev = devices ! nat device_index in
         if path dev \<in> set (active_device_paths bridges) then
           (case find (\<lambda>b. device b = path dev \<and> is_running b) (map (repoll exited) bridges) of
              None \<Rightarrow> (AttributeError, bridges)
            | Some existing_bridge \<Rightarrow> (AlreadyRunning (port existing_bridge), bridges))
         else
           (let default_port = get_next_available_port 4403 (map (repoll exited) bridges) in
            case inp of
              BadInput \<Rightarrow> (InvalidPort, bridges)
            | _ \<Rightarrow>
                (let prt = (case inp of PortNumber n \<Rightarrow> n | _ \<Rightarrow> default_port);
                     (evs, ok, b) = start env (Bridge (path dev) prt (Some (node_name dev)) 115200)
                 in if ok then (Started, bridges @ [b]) else (StartFailed, bridges))))
      else (InvalidDevice, bridges))"

section \<open>Device prober\<close>

text \<open>
  What the polling loop can read from the \<open>SerialInterface\<close> object. An attribute that is
  missing (\<open>hasattr\<close> false) or \<open>None\<close> is \<open>None\<close> here; the node number is the unsigned
  32-bit value the firmware reports.
\<close>

record user =
  longName :: "string option"
  shortName :: "string option"

record my_info =
  my_node_num :: "nat option"
  user :: "user option"

record local_node =
  owner :: "string option"
  ln_longName :: "string option"

record interface =
  myInfo :: "my_info option"
  localNode :: "local_node option"

text \<open>\<open>f"!{my_node_num:08x}"\<close>: lower-case hexadecimal, padded with zeros to eight digits.\<close>

definition hex_digit :: "nat \<Rightarrow> char" where
  "hex_digit d = ''0123456789abcdef'' ! d"

fun hex_digits :: "nat \<Rightarrow> string" where
  "hex_digits n = (if n < 16 then [hex_digit n] else hex_digits (n div 16) @ [hex_digit (n mod 16)])"

declare hex_digits.simps [simp del]

definition format_node_id :: "nat \<Rightarrow> string" where
  "format_node_id n = CHR ''!'' # replicate (8 - length (hex_digits n)) CHR ''0'' @ hex_digits n"

text \<open>The owner name, from \<open>myInfo.user\<close> first and from \<open>localNode\<close> otherwise.\<close>

definition user_owner :: "my_info \<Rightarrow> string option" where
  "user_owner mi =
     (case user mi of
        None \<Rightarrow> None
      | Some u \<Rightarrow> if truthy (longName u) then longName u
                  else if truthy (shortName u) then shortName u
                  else None)"

definition local_owner :: "interface \<Rightarrow> string option" where
  "local_owner iface =
     (case localNode iface of
        None \<Rightarrow> None
      | Some node \<Rightarrow> if truthy (owner node) then owner node
                     else if truthy (ln_longName node) then ln_longName node
                     else None)"

definition find_owner :: "interface \<Rightarrow> my_info \<Rightarrow> string option" where
  "find_owner iface mi =
     (case user_owner mi of Some ow \<Rightarrow> Some ow | None \<Rightarrow> local_owner iface)"

text \<open>
  One pass through the body of the polling loop, up to \<open>time.sleep\<close>: the string to
  return, if the pass returns. \<open>elapsed\<close> is \<open>time.time() - start_time\<close> as read by the
  test \<open>> 5\<close>.
\<close>

definition identify :: "interface \<Rightarrow> real \<Rightarrow> string option" where
  "identify iface elapsed =
     (case myInfo iface of
        None \<Rightarrow> None
      | Some mi \<Rightarrow>
          (case my_node_num mi of
             None \<Rightarrow> None
           | Some n \<Rightarrow>
               if n = 0 then None
               else (case find_owner iface mi of
                       Some ow \<Rightarrow> Some (format_node_id n @ '' ('' @ ow @ '')'')
                     | None \<Rightarrow> if elapsed > 5 then Some (format_node_id n) else None)))"

text \<open>
  One iteration of the loop as the outside world presents it: the elapsed time read by
  the loop test, what the interface shows (or that reading it raises), and the elapsed time
  read by the grace test.
\<close>

datatype observation = Raises | Shows interface

record tick =
  loop_elapsed :: real
  observed :: observation
  grace_elapsed :: real

text \<open>
  The loop \<open>while time.time() - start_time < timeout\<close> over a script of iterations. The
  result is \<open>None\<close> when the script ends before the loop does; otherwise the events from
  the loop on and the value \<open>query_meshtastic_info\<close> returns.
\<close>

fun poll_loop :: "int \<Rightarrow> tick list \<Rightarrow> (event list \<times> string option) option" where
  "poll_loop timeout [] = None"
| "poll_loop timeout (t # ts) =
     (if \<not> loop_elapsed t < real_of_int timeout then Some ([CloseInterface], None)
      else case observed t of
             Raises \<Rightarrow> Some ([], None)
           | Shows iface \<Rightarrow>
               (case identify iface (grace_elapsed t) of
                  Some r \<Rightarrow> Some ([CloseInterface], Some r)
                | None \<Rightarrow>
                    (case poll_loop timeout ts of
                       None \<Rightarrow> None
                     | Some (evs, r) \<Rightarrow> Some (Sleep # evs, r))))"

text \<open>The constructor \<open>SerialInterface(devPath=...)\<close>: it raises, or the session is open.\<close>

datatype connect_result = ConnectRaises | Connected "tick list"

definition query_meshtastic_info ::
  "bool \<Rightarrow> (string \<Rightarrow> connect_result) \<Rightarrow> string \<Rightarrow> int
     \<Rightarrow> (event list \<times> string option) option" where
  "query_meshtastic_info MESHTASTIC_AVAILABLE connect device_path timeout =
     (if \<not> MESHTASTIC_AVAILABLE then Some ([], None)
      else case connect device_path of
             ConnectRaises \<Rightarrow> Some ([OpenInterface device_path], None)
           | Connected ts \<Rightarrow>
               (case poll_loop timeout ts of
                  None \<Rightarrow> None
                | Some (evs, r) \<Rightarrow> Some (OpenInterface device_path # evs, r)))"

section \<open>Device scanner\<close>

text \<open>\<open>path.startswith(pre)\<close> and \<open>sub in path\<close>.\<close>

definition startswith :: "string \<Rightarrow> string \<Rightarrow> bool" where
  "startswith s pre = (take (length pre) s = pre)"

fun contains :: "string \<Rightarrow> string \<Rightarrow> bool" where
  "contains sub [] = (sub = [])"
| "contains sub (c # cs) = (startswith (c # cs) sub \<or> contains sub cs)"

text \<open>
  \<open>skip_pattern.match(path)\<close> for \<open>/dev/cu\.usbmodem[A-Z0-9]{10,}\<close>: the match is anchored
  at the start only.
\<close>

definition upper_or_digit :: "char \<Rightarrow> bool" where
  "upper_or_digit c = (c \<in> set ''ABCDEFGHIJKLMNOPQRSTUVWXYZ0123456789'')"

definition skip_pattern_match :: "string \<Rightarrow> bool" where
  "skip_pattern_match p =
     (startswith p ''/dev/cu.usbmodem'' \<and>
      10 \<le> length (takeWhile upper_or_digit (drop (length ''/dev/cu.usbmodem'') p)))"

definition darwin_patterns :: "string list" where
  "darwin_patterns = [''/dev/tty.usb*'', ''/dev/cu.usb*'', ''/dev/tty.SLAB*'', ''/dev/cu.SLAB*'']"

definition linux_patterns :: "string list" where
  "linux_patterns = [''/dev/ttyUSB*'', ''/dev/ttyACM*'']"

definition darwin_desc :: "string \<Rightarrow> string" where
  "darwin_desc p =
     (if contains ''SLAB'' p then ''CP210x USB-Serial''
      else if contains ''usbmodem'' p then ''Native USB''
      else if contains ''usbserial'' p then ''USB Serial (CH340/FTDI)''
      else ''USB Serial'')"

definition linux_desc :: "string \<Rightarrow> string" where
  "linux_desc p =
     (if contains ''ACM'' p then ''Native USB (ACM)''
      else if contains ''USB'' p then ''USB Serial Adapter''
      else ''USB Serial'')"

text \<open>
  The two enumeration branches of \<open>find_serial_devices\<close>. \<open>glob\<close> is \<open>glob.glob\<close> on the
  host: the paths it returns for a pattern, in its order.
\<close>

definition scan_darwin :: "(string \<Rightarrow> string list) \<Rightarrow> string list \<Rightarrow> serial_device list" where
  "scan_darwin glob skip_devices =
     concat (map (\<lambda>pattern.
       map (\<lambda>p. SerialDevice p (darwin_desc p))
         (filter (\<lambda>p. p \<notin> set skip_devices \<and> \<not> skip_pattern_match p \<and> startswith p ''/dev/cu.'')
            (glob pattern)))
       darwin_patterns)"

definition scan_linux :: "(string \<Rightarrow> string list) \<Rightarrow> serial_device list" where
  "scan_linux glob =
     concat (map (\<lambda>pattern. map (\<lambda>p. SerialDevice p (linux_desc p)) (glob pattern))
       linux_patterns)"

text \<open>
  The query step: \<open>probe p\<close> is what \<open>query_meshtastic_info(p, timeout=10, verbose=True)\<close>
  returns; a result that is \<open>None\<close> or empty leaves \<open>node_name\<close> as it is.
\<close>

definition attach_name :: "(string \<Rightarrow> string option) \<Rightarrow> serial_device \<Rightarrow> serial_device" where
  "attach_name probe d =
     (case probe (path d) of
        None \<Rightarrow> d
      | Some nid \<Rightarrow> if nid = [] then d else d\<lparr>node_name := nid\<rparr>)"

definition find_serial_devices ::
  "string \<Rightarrow> (string \<Rightarrow> string list) \<Rightarrow> bool \<Rightarrow> (string \<Rightarrow> string option)
     \<Rightarrow> bool \<Rightarrow> string list \<Rightarrow> serial_device list" where
  "find_serial_devices sys_platform glob MESHTASTIC_AVAILABLE probe query_names skip_devices =
     (let devices = (if sys_platform = ''darwin'' then scan_darwin glob skip_devices
                     else scan_linux glob)
      in if query_names \<and> MESHTASTIC_AVAILABLE \<and> devices \<noteq> []
         then map (attach_name probe) devices
         else devices)"

section \<open>Concrete bridges used in the examples\<close>

definition running_bridge :: "string \<Rightarrow> int \<Rightarrow> bridge" where
  "running_bridge d p =
     (Bridge d p None 115200)\<lparr>process := Some \<lparr>pid = 1, poll = None, ignores_sigterm = False\<rparr>\<rparr>"

definition exited_bridge :: "string \<Rightarrow> int \<Rightarrow> bridge" where
  "exited_bridge d p =
     (Bridge d p None 115200)\<lparr>process := Some \<lparr>pid = 2, poll = Some 0, ignores_sigterm = False\<rparr>\<rparr>"

text \<open>An outside world in which every step of \<open>Bridge.start\<close> succeeds.\<close>

definition good_env :: start_env where
  "good_env =
     \<lparr>stty_ok = True,
      popen_result = Some \<lparr>pid = 7, poll = None, ignores_sigterm = False\<rparr>,
      ZEROCONF_AVAILABLE = True,
      local_ip = Some ''192.168.1.10'',
      new_zeroconf = Some \<lparr>unregister_raises = False\<rparr>,
      service_info_raises = False,
      register_raises = False\<rparr>"

definition example_service :: service_info where
  "example_service =
     \<lparr>si_type = ''_meshtastic._tcp.local.'',
      si_name = ''meshtastic_9d4e._meshtastic._tcp.local.'',
      si_addresses = [''192.168.1.10''],
      si_port = 4403,
      si_properties = [(''node_id'', ''!3c7f9d4e''), (''device'', ''/dev/ttyUSB0'')],
      si_server = ''meshtastic_9d4e.local.''\<rparr>"

text \<open>
  A bridge holding a registration, whose child process answers \<open>poll()\<close> with \<open>rc\<close>.
\<close>

definition registered_bridge :: "int option \<Rightarrow> bridge" where
  "registered_bridge rc =
     (Bridge ''/dev/ttyUSB0'' 4403 (Some ''!3c7f9d4e'') 115200)
       \<lparr>process := Some \<lparr>pid = 3, poll = rc, ignores_sigterm = False\<rparr>,
        zeroconf := Some \<lparr>unregister_raises = False\<rparr>,
        service_info := Some example_service\<rparr>"

section \<open>Predicates and concrete inputs of the probe and the scanner\<close>


text \<open>Two hosts: what \<open>glob.glob\<close> returns there for each pattern.\<close>

definition linux_glob :: "string \<Rightarrow> string list" where
  "linux_glob pattern = (if pattern = ''/dev/ttyUSB*'' then [''/dev/ttyUSB0''] else [])"

definition darwin_glob :: "string \<Rightarrow> string list" where
  "darwin_glob pattern =
     (if pattern = ''/dev/tty.usb*'' then [''/dev/tty.usbserial-0001'']
      else if pattern = ''/dev/cu.usb*''
        then [''/dev/cu.usbserial-0001'', ''/dev/cu.usbmodemM4AE1CAEMD6'', ''/dev/cu.usbmodem1101'']
      else [])"

text \<open>
  An interface showing node number \<open>num\<close> and long name \<open>name\<close>, and an iteration whose two
  clock readings agree.
\<close>

definition iface_at :: "nat option \<Rightarrow> string option \<Rightarrow> interface" where
  "iface_at num name =
     \<lparr>myInfo = Some \<lparr>my_node_num = num, user = Some \<lparr>longName = name, shortName = None\<rparr>\<rparr>,
      localNode = None\<rparr>"

definition tick_at :: "real \<Rightarrow> observation \<Rightarrow> tick" where
  "tick_at e ob = \<lparr>loop_elapsed = e, observed = ob, grace_elapsed = e\<rparr>"


section \<open>Properties of the port allocator\<close>

lemma next_port_loop_ge: "p \<le> next_port_loop p used"
proof (induction p used rule: next_port_loop.induct)
  case (1 p used)
  show ?case
  proof (cases "p \<in> set used")
    case True
    with "1" have "p + 1 \<le> next_port_loop (p + 1) used" by simp
    moreover from True have "next_port_loop p used = next_port_loop (p + 1) used"
      by (simp add: next_port_loop.simps [of p])
    ultimately show ?thesis by simp
  next
    case False
    then show ?thesis by (simp add: next_port_loop.simps [of p])
  qed
qed

lemma next_port_loop_free: "next_port_loop p used \<notin> set used"
proof (induction p used rule: next_port_loop.induct)
  case (1 p used)
  show ?case
  proof (cases "p \<in> set used")
    case True
    with "1" show ?thesis by (simp add: next_port_loop.simps [of p])
  next
    case False
    then show ?thesis by (simp add: next_port_loop.simps [of p])
  qed
qed

lemma next_port_loop_below: "p \<le> q \<Longrightarrow> q < next_port_loop p used \<Longrightarrow> q \<in> set used"
proof (induction p used rule: next_port_loop.induct)
  case (1 p used)
  show ?case
  proof (cases "p \<in> set used")
    case True
    note mem = True
    show ?thesis
    proof (cases "q = p")
      case True
      with mem show ?thesis by simp
    next
      case False
      with "1.prems" have "p + 1 \<le> q" by simp
      moreover from mem "1.prems" have "q < next_port_loop (p + 1) used"
        by (simp add: next_port_loop.simps [of p])
      ultimately show ?thesis using "1.IH" mem by simp
    qed
  next
    case False
    with "1.prems" show ?thesis by (simp add: next_port_loop.simps [of p])
  qed
qed

text \<open>
  Claim C2. For every base port \<open>b\<close> and every list of bridges \<open>L\<close>,
  \<open>get_next_available_port b L\<close> is at least \<open>b\<close>, is not the port of any bridge of \<open>L\<close> whose
  liveness check passes, and every integer from \<open>b\<close> up to but excluding the result is the
  port of such a bridge: the result is the smallest free port from \<open>b\<close> on. The function is
  total, so the search always returns.
\<close>

theorem get_next_available_port_least:
  "b \<le> get_next_available_port b L \<and>
   get_next_available_port b L \<notin> set (used_ports L) \<and>
   (\<forall>q. b \<le> q \<and> q < get_next_available_port b L \<longrightarrow>
        (\<exists>x \<in> set L. is_running x \<and> port x = q))"
proof (intro conjI allI impI)
  show "b \<le> get_next_available_port b L"
    by (simp add: get_next_available_port_def next_port_loop_ge)
  show "get_next_available_port b L \<notin> set (used_ports L)"
    by (simp add: get_next_available_port_def next_port_loop_free)
next
  fix q
  assume "b \<le> q \<and> q < get_next_available_port b L"
  then have "b \<le> q" and "q < next_port_loop b (used_ports L)"
    by (simp_all add: get_next_available_port_def)
  then have "q \<in> set (used_ports L)"
    by (rule next_port_loop_below)
  then show "\<exists>x \<in> set L. is_running x \<and> port x = q"
    by (auto simp: used_ports_def)
qed

theorem get_next_available_port_least_witness:
  "get_next_available_port 4403 [running_bridge ''/dev/ttyUSB0'' 4403, exited_bridge ''/dev/ttyUSB1'' 4404] = 4404 \<and>
   (4403 \<le> (4403::int) \<and> (4403::int) < 4404) \<and>
   (\<exists>x \<in> set [running_bridge ''/dev/ttyUSB0'' 4403, exited_bridge ''/dev/ttyUSB1'' 4404].
        is_running x \<and> port x = 4403)"
proof -
  let ?L = "[running_bridge ''/dev/ttyUSB0'' 4403, exited_bridge ''/dev/ttyUSB1'' 4404]"
  have used: "used_ports ?L = [4403]"
    by (simp add: used_ports_def is_running_def running_bridge_def exited_bridge_def Bridge_def)
  have val: "get_next_available_port 4403 ?L = 4404"
    by (simp add: get_next_available_port_def used next_port_loop.simps [of 4403]
        next_port_loop.simps [of 4404])
  from get_next_available_port_least [of 4403 ?L] val
  have "\<forall>q. 4403 \<le> q \<and> q < 4404 \<longrightarrow> (\<exists>x \<in> set ?L. is_running x \<and> port x = q)"
    by simp
  then have "\<exists>x \<in> set ?L. is_running x \<and> port x = 4403"
    by (rule allE [of _ 4403]) simp
  with val show ?thesis by simp
qed

section \<open>Properties of \<open>Bridge.stop\<close> and \<open>Bridge.start\<close>\<close>

text \<open>
  \<open>_start_mdns\<close> assigns \<open>self.zeroconf\<close> before \<open>self.service_info\<close>: a started Bridge
  never holds a registration record without its registrar.
\<close>

lemma start_registration_paired:
  "service_info (snd (snd (start env (Bridge d p nid bd)))) \<noteq> None \<Longrightarrow>
     zeroconf (snd (snd (start env (Bridge d p nid bd)))) \<noteq> None"
  by (auto simp: start_def start_mdns_def Bridge_def Let_def
      split: if_splits option.splits prod.splits)




lemma start_result:
  "start env (Bridge d p nid bd) = (evs, ok, b) \<Longrightarrow>
     ok = (stty_ok env \<and> popen_result env \<noteq> None) \<and>
     (\<not> ok \<longrightarrow> b = Bridge d p nid bd) \<and>
     (ok \<longrightarrow> process b = popen_result env)"
  by (auto simp: start_def start_mdns_def Bridge_def Let_def
      split: if_splits option.splits prod.splits)

lemma start_fails:
  "\<not> (stty_ok env \<and> popen_result env \<noteq> None) \<Longrightarrow>
     fst (snd (start env b)) = False \<and> snd (snd (start env b)) = b"
  by (auto simp: start_def split: option.splits)

lemma create_bridge_unchanged:
  "\<not> (stty_ok env \<and> popen_result env \<noteq> None) \<Longrightarrow>
     snd (create_bridge env exited bridges devices i inp) = bridges"
  by (auto simp: create_bridge_def Let_def start_def
      split: option.splits port_input.splits prod.splits if_splits)

text \<open>
  Claim C8. For a freshly constructed Bridge, \<open>start()\<close> returns \<open>True\<close> exactly when the
  \<open>stty\<close> call succeeds and \<open>Popen\<close> returns a handle. When either fails, the Bridge is left as
  constructed, with no subprocess handle, \<open>is_running()\<close> is false, and the creation branch of
  \<open>main\<close> leaves the list \<open>bridges\<close> as it was, whichever children exit meanwhile. When both succeed, \<open>start()\<close> returns \<open>True\<close> with
  the handle set whatever happens in \<open>_start_mdns\<close>: a failing socket call, a failing
  \<open>Zeroconf()\<close>, a failing \<open>ServiceInfo(...)\<close> or a failing \<open>register_service\<close>.
\<close>

theorem start_success_iff_spawn:
  "(fst (snd (start env (Bridge d p nid bd))) \<longleftrightarrow> stty_ok env \<and> popen_result env \<noteq> None) \<and>
   (\<not> (stty_ok env \<and> popen_result env \<noteq> None) \<longrightarrow>
      snd (snd (start env (Bridge d p nid bd))) = Bridge d p nid bd \<and>
      process (snd (snd (start env (Bridge d p nid bd)))) = None \<and>
      \<not> is_running (snd (snd (start env (Bridge d p nid bd)))) \<and>
      snd (create_bridge env exited bridges devices i inp) = bridges) \<and>
   (stty_ok env \<and> popen_result env \<noteq> None \<longrightarrow>
      fst (snd (start (env\<lparr>local_ip := ip, new_zeroconf := zc, service_info_raises := sr,
                            register_raises := rr\<rparr>) (Bridge d p nid bd))) \<and>
      process (snd (snd (start (env\<lparr>local_ip := ip, new_zeroconf := zc,
                            service_info_raises := sr, register_raises := rr\<rparr>)
                          (Bridge d p nid bd)))) = popen_result env)"
proof (intro conjI impI)
  obtain evs ok b where s: "start env (Bridge d p nid bd) = (evs, ok, b)"
    by (cases "start env (Bridge d p nid bd)") auto
  from start_result [OF s] s
  show "fst (snd (start env (Bridge d p nid bd))) \<longleftrightarrow> stty_ok env \<and> popen_result env \<noteq> None"
    by simp
next
  assume f: "\<not> (stty_ok env \<and> popen_result env \<noteq> None)"
  from start_fails [OF f, of "Bridge d p nid bd"]
  show "snd (snd (start env (Bridge d p nid bd))) = Bridge d p nid bd" by simp
  then show "process (snd (snd (start env (Bridge d p nid bd)))) = None"
    by (simp add: Bridge_def)
  then show "\<not> is_running (snd (snd (start env (Bridge d p nid bd))))"
    by (simp add: is_running_def)
  from f show "snd (create_bridge env exited bridges devices i inp) = bridges"
    by (rule create_bridge_unchanged)
next
  let ?env = "env\<lparr>local_ip := ip, new_zeroconf := zc, service_info_raises := sr,
                   register_raises := rr\<rparr>"
  assume g: "stty_ok env \<and> popen_result env \<noteq> None"
  obtain evs ok b where s: "start ?env (Bridge d p nid bd) = (evs, ok, b)"
    by (cases "start ?env (Bridge d p nid bd)") auto
  from start_result [OF s] g have "ok" and "process b = popen_result env" by simp_all
  with s show "fst (snd (start ?env (Bridge d p nid bd)))"
    and "process (snd (snd (start ?env (Bridge d p nid bd)))) = popen_result env"
    by simp_all
qed

theorem start_success_iff_spawn_witness:
  "\<not> fst (snd (start (good_env\<lparr>stty_ok := False\<rparr>) (Bridge ''/dev/ttyUSB0'' 4403 None 115200))) \<and>
   process (snd (snd (start (good_env\<lparr>stty_ok := False\<rparr>)
                        (Bridge ''/dev/ttyUSB0'' 4403 None 115200)))) = None \<and>
   snd (create_bridge (good_env\<lparr>stty_ok := False\<rparr>) (\<lambda>p. None) []
          [SerialDevice ''/dev/ttyUSB0'' []] 0 NoInput) = [] \<and>
   fst (snd (start (good_env\<lparr>local_ip := Some ''192.168.1.10'',
                             new_zeroconf := Some \<lparr>unregister_raises = False\<rparr>,
                             service_info_raises := False, register_raises := True\<rparr>)
                 (Bridge ''/dev/ttyUSB0'' 4403 (Some ''!3c7f9d4e'') 115200))) \<and>
   process (snd (snd (start (good_env\<lparr>local_ip := Some ''192.168.1.10'',
                             new_zeroconf := Some \<lparr>unregister_raises = False\<rparr>,
                             service_info_raises := False, register_raises := True\<rparr>)
                 (Bridge ''/dev/ttyUSB0'' 4403 (Some ''!3c7f9d4e'') 115200)))) =
     Some \<lparr>pid = 7, poll = None, ignores_sigterm = False\<rparr>"
  using start_success_iff_spawn [where env = "good_env\<lparr>stty_ok := False\<rparr>"
      and d = "''/dev/ttyUSB0''" and p = 4403 and nid = None and bd = 115200
      and bridges = "[]" and devices = "[SerialDevice ''/dev/ttyUSB0'' []]" and i = 0
      and inp = NoInput and exited = "\<lambda>p. None"]
    start_success_iff_spawn [where env = good_env
      and d = "''/dev/ttyUSB0''" and p = 4403 and nid = "Some ''!3c7f9d4e''" and bd = 115200
      and ip = "Some ''192.168.1.10''" and zc = "Some \<lparr>unregister_raises = False\<rparr>"
      and sr = False and rr = True]
  by (simp add: good_env_def start_def start_mdns_def create_bridge_def Bridge_def
      SerialDevice_def active_device_paths_def truthy_def Let_def)

section \<open>Properties of the registry\<close>









text \<open>
  When the child of the Bridge on the chosen device exits after the menu was shown and
  before the lookup, the lookup finds no running Bridge and the branch ends in the uncaught
  \<open>AttributeError\<close>; a device freed in the same way is offered port 4403 again.
\<close>

lemma create_bridge_exit_between_polls:
  "create_bridge good_env (\<lambda>p. if p = 1 then Some 0 else None)
       [running_bridge ''/dev/ttyUSB0'' 4403]
       [SerialDevice ''/dev/ttyUSB0'' [], SerialDevice ''/dev/ttyUSB1'' []] 0 NoInput =
     (AttributeError, [running_bridge ''/dev/ttyUSB0'' 4403]) \<and>
   get_next_available_port 4403
       (map (repoll (\<lambda>p. if p = 1 then Some 0 else None)) [running_bridge ''/dev/ttyUSB0'' 4403]) =
     4403"
  by (simp add: running_bridge_def is_running_def Bridge_def create_bridge_def
      SerialDevice_def active_device_paths_def repoll_def Let_def
      get_next_available_port_def used_ports_def next_port_loop.simps [of 4403])

lemma stop_running_events:
  "fst (stop_running bs) = concat (map (\<lambda>b. fst (stop b)) (filter is_running bs))"
  by (induction bs) (auto split: prod.splits)

lemma stop_running_objects:
  "snd (stop_running bs) = map (\<lambda>b. if is_running b then snd (stop b) else b) bs"
  by (induction bs) (auto split: prod.splits)

lemma stop_not_running: "\<not> is_running (snd (stop b))"
  by (auto simp: stop_def stop_mdns_def stop_process_def is_running_def
      split: option.splits prod.splits)

text \<open>
  Claim C4, as the code has it. The stop-all entry of the menu invokes \<open>stop()\<close> on exactly
  the Bridges of the list whose liveness check passes at that moment, in list order, leaves
  the others untouched, and then clears the list; \<open>signal_handler\<close> runs the same loop and
  does not clear the list. Afterwards no Bridge that was in the list is running.
\<close>

theorem stop_all_running_only:
  "stop_all bridges =
     (concat (map (\<lambda>b. fst (stop b)) (filter is_running bridges)),
      map (\<lambda>b. if is_running b then snd (stop b) else b) bridges,
      []) \<and>
   signal_handler bridges =
     (concat (map (\<lambda>b. fst (stop b)) (filter is_running bridges)),
      map (\<lambda>b. if is_running b then snd (stop b) else b) bridges) \<and>
   (\<forall>b \<in> set (fst (snd (stop_all bridges))). \<not> is_running b)"
proof (intro conjI)
  have p: "stop_running bridges =
      (concat (map (\<lambda>b. fst (stop b)) (filter is_running bridges)),
       map (\<lambda>b. if is_running b then snd (stop b) else b) bridges)"
    using stop_running_events [of bridges] stop_running_objects [of bridges]
    by (cases "stop_running bridges") simp
  then show "stop_all bridges =
     (concat (map (\<lambda>b. fst (stop b)) (filter is_running bridges)),
      map (\<lambda>b. if is_running b then snd (stop b) else b) bridges, [])"
    by (simp add: stop_all_def)
  from p show "signal_handler bridges =
     (concat (map (\<lambda>b. fst (stop b)) (filter is_running bridges)),
      map (\<lambda>b. if is_running b then snd (stop b) else b) bridges)"
    by (simp add: signal_handler_def)
  from p show "\<forall>b \<in> set (fst (snd (stop_all bridges))). \<not> is_running b"
    by (auto simp: stop_all_def stop_not_running)
qed

theorem stop_all_running_only_witness:
  "stop_all [registered_bridge None, registered_bridge (Some 1)] =
     ([UnregisterService example_service, ZeroconfClose, Terminate 3, Wait 3],
      [snd (stop (registered_bridge None)), registered_bridge (Some 1)],
      []) \<and>
   \<not> is_running (snd (stop (registered_bridge None))) \<and>
   \<not> is_running (registered_bridge (Some 1))"
  using stop_all_running_only [of "[registered_bridge None, registered_bridge (Some 1)]"]
  by (simp add: registered_bridge_def Bridge_def is_running_def stop_def stop_mdns_def
      stop_process_def)

text \<open>
  The claim as stated fails: a Bridge whose subprocess has exited while its registration is
  still held is skipped by the loop, so \<open>stop()\<close>, which would unregister the service, is not
  invoked on it and the registration is not released.
\<close>

theorem stop_all_skips_exited_counterexample:
  "\<not> is_running (registered_bridge (Some 1)) \<and>
   service_info (registered_bridge (Some 1)) = Some example_service \<and>
   stop_all [registered_bridge (Some 1)] = ([], [registered_bridge (Some 1)], []) \<and>
   fst (stop (registered_bridge (Some 1))) =
     [UnregisterService example_service, ZeroconfClose, Terminate 3, Wait 3] \<and>
   service_info (snd (stop (registered_bridge (Some 1)))) = None"
  by (simp add: registered_bridge_def Bridge_def is_running_def stop_all_def stop_def
      stop_mdns_def stop_process_def)

section \<open>Properties of the device scanner\<close>

lemma attach_name_path: "path (attach_name probe d) = path d"
  by (simp add: attach_name_def split: option.splits)

lemma scan_darwin_member:
  "d \<in> set (scan_darwin glob skip) \<Longrightarrow>
     startswith (path d) ''/dev/cu.'' \<and> path d \<notin> set skip \<and> \<not> skip_pattern_match (path d)"
  by (auto simp: scan_darwin_def SerialDevice_def)

lemma find_serial_devices_darwin_member:
  "d \<in> set (find_serial_devices ''darwin'' glob avail probe q skip) \<Longrightarrow>
     startswith (path d) ''/dev/cu.'' \<and> path d \<notin> set skip \<and> \<not> skip_pattern_match (path d)"
  by (auto simp: find_serial_devices_def Let_def attach_name_path dest: scan_darwin_member
      split: if_splits)

lemma startswithD: "startswith s pre \<Longrightarrow> \<exists>r. s = pre @ r"
proof -
  assume "startswith s pre"
  then have "take (length pre) s = pre" by (simp add: startswith_def)
  then have "s = pre @ drop (length pre) s" by (metis append_take_drop_id)
  then show ?thesis ..
qed

lemma cu_not_tty: "startswith p ''/dev/cu.'' \<Longrightarrow> \<not> startswith p ''/dev/tty.''"
proof
  assume "startswith p ''/dev/cu.''" and "startswith p ''/dev/tty.''"
  then obtain r1 r2 where "p = ''/dev/cu.'' @ r1" and "p = ''/dev/tty.'' @ r2"
    by (blast dest: startswithD)
  then show False by simp
qed

lemma find_serial_devices_darwin_excludes:
  "p \<in> set skip \<or> skip_pattern_match p \<Longrightarrow>
     p \<notin> path ` set (find_serial_devices ''darwin'' glob avail probe q skip)"
  by (auto dest: find_serial_devices_darwin_member)

text \<open>
  Claim C10. On macOS (\<open>sys.platform == "darwin"\<close>) every device the scanner returns has a
  path beginning with \<open>/dev/cu.\<close>, and so none beginning with \<open>/dev/tty.\<close>, although the two
  \<open>/dev/tty.*\<close> patterns are among those enumerated.
\<close>

theorem darwin_only_cu_paths:
  "(\<forall>d \<in> set (find_serial_devices ''darwin'' glob avail probe q skip).
      startswith (path d) ''/dev/cu.'' \<and> \<not> startswith (path d) ''/dev/tty.'') \<and>
   ''/dev/tty.usb*'' \<in> set darwin_patterns \<and> ''/dev/tty.SLAB*'' \<in> set darwin_patterns"
proof (intro conjI ballI)
  fix d
  assume "d \<in> set (find_serial_devices ''darwin'' glob avail probe q skip)"
  then show "startswith (path d) ''/dev/cu.''"
    by (simp add: find_serial_devices_darwin_member)
  then show "\<not> startswith (path d) ''/dev/tty.''"
    by (rule cu_not_tty)
qed (simp_all add: darwin_patterns_def)

lemma darwin_scan_value:
  "find_serial_devices ''darwin'' darwin_glob True (\<lambda>p. Some ''!3c7f9d4e'') True [''/dev/cu.usbmodem1101'']
     = [\<lparr>path = ''/dev/cu.usbserial-0001'', description = ''USB Serial (CH340/FTDI)'',
          node_name = ''!3c7f9d4e''\<rparr>]"
  by (simp add: find_serial_devices_def scan_darwin_def darwin_patterns_def darwin_glob_def
      skip_pattern_match_def startswith_def upper_or_digit_def SerialDevice_def darwin_desc_def
      attach_name_def Let_def)

theorem darwin_only_cu_paths_witness:
  "''/dev/tty.usbserial-0001'' \<in> set (darwin_glob ''/dev/tty.usb*'') \<and>
   map path (find_serial_devices ''darwin'' darwin_glob True (\<lambda>p. Some ''!3c7f9d4e'') True
              [''/dev/cu.usbmodem1101'']) = [''/dev/cu.usbserial-0001''] \<and>
   startswith ''/dev/cu.usbserial-0001'' ''/dev/cu.''"
  using darwin_only_cu_paths [of darwin_glob True "\<lambda>p. Some ''!3c7f9d4e''" True
      "[''/dev/cu.usbmodem1101'']"]
  by (simp add: darwin_scan_value darwin_glob_def)

text \<open>
  Claim C3 at a failing input. On a platform other than macOS the scanner does not consult
  \<open>skip_devices\<close>: with \<open>/dev/ttyUSB0\<close> both enumerated and in the exclude-set, the scan
  returns a device with that path. (On macOS the exclude-set and the exclusion pattern are
  both applied: \<open>find_serial_devices_darwin_excludes\<close>.)
\<close>

theorem linux_scan_ignores_skip_devices:
  "''/dev/ttyUSB0'' \<in> set [''/dev/ttyUSB0''] \<and>
   find_serial_devices ''linux'' linux_glob False (\<lambda>p. None) True [''/dev/ttyUSB0''] =
     [\<lparr>path = ''/dev/ttyUSB0'', description = ''USB Serial Adapter'', node_name = []\<rparr>]"
  by (simp add: find_serial_devices_def scan_linux_def linux_patterns_def linux_glob_def
      SerialDevice_def linux_desc_def startswith_def Let_def)

section \<open>Properties of the device prober\<close>

text \<open>
  Claim C9 at a failing input. A probe that learns node number \<open>0x3c7f9d4e\<close> and owner
  \<open>Alice\<close> returns \<open>!3c7f9d4e (Alice)\<close>; \<open>main\<close> passes that string on as the Bridge's
  \<open>node_id\<close>, and \<open>_start_mdns\<close> then registers host name \<open>meshtastic_ice).local.\<close>, the tail
  of the owner text, where the bare identifier gives \<open>meshtastic_9d4e.local.\<close>.
\<close>

theorem mdns_name_takes_owner_tail:
  "poll_loop 10 [tick_at 0 (Shows (iface_at (Some 1014996302) (Some ''Alice'')))] =
     Some ([CloseInterface], Some ''!3c7f9d4e (Alice)'') \<and>
   map_option si_server (service_info (snd (snd (start good_env
       (Bridge ''/dev/cu.usbserial-0001'' 4403 (Some ''!3c7f9d4e (Alice)'') 115200))))) =
     Some ''meshtastic_ice).local.'' \<and>
   map_option si_name (service_info (snd (snd (start good_env
       (Bridge ''/dev/cu.usbserial-0001'' 4403 (Some ''!3c7f9d4e (Alice)'') 115200))))) =
     Some ''meshtastic_ice)._meshtastic._tcp.local.'' \<and>
   map_option si_server (service_info (snd (snd (start good_env
       (Bridge ''/dev/cu.usbserial-0001'' 4403 (Some ''!3c7f9d4e'') 115200))))) =
     Some ''meshtastic_9d4e.local.''"
  by (simp add: tick_at_def iface_at_def identify_def find_owner_def user_owner_def truthy_def
      format_node_id_def hex_digits.simps hex_digit_def
      good_env_def start_def start_mdns_def Bridge_def last4_def remove_bang_def drop_last7_def
      Let_def)








text \<open>
  The loop returns as soon as the script holds an iteration whose clock reading has reached
  the timeout: a run in which time passes ends.
\<close>

lemma poll_loop_returns:
  "\<exists>t \<in> set ts. \<not> loop_elapsed t < real_of_int timeout \<Longrightarrow> poll_loop timeout ts \<noteq> None"
proof (induction ts)
  case Nil
  then show ?case by simp
next
  case (Cons a ts)
  show ?case
  proof (cases "loop_elapsed a < real_of_int timeout")
    case False
    then show ?thesis by simp
  next
    case True
    with Cons.prems have "\<exists>t \<in> set ts. \<not> loop_elapsed t < real_of_int timeout" by auto
    with Cons.IH have "poll_loop timeout ts \<noteq> None" by simp
    with True show ?thesis
      by (auto split: observation.splits option.splits)
  qed
qed

lemma poll_loop_closes:
  "poll_loop timeout ts = Some (evs, r) \<Longrightarrow> \<forall>s \<in> set ts. observed s \<noteq> Raises \<Longrightarrow>
     \<exists>k. evs = replicate k Sleep @ [CloseInterface]"
proof (induction ts arbitrary: evs r)
  case Nil
  then show ?case by simp
next
  case (Cons t ts)
  show ?case
  proof (cases "loop_elapsed t < real_of_int timeout")
    case False
    with Cons.prems have "evs = replicate 0 Sleep @ [CloseInterface]" by simp
    then show ?thesis by blast
  next
    case True
    from Cons.prems obtain iface where sh: "observed t = Shows iface"
      by (cases "observed t") auto
    show ?thesis
    proof (cases "identify iface (grace_elapsed t)")
      case (Some a)
      with True sh Cons.prems have "evs = replicate 0 Sleep @ [CloseInterface]" by simp
      then show ?thesis by blast
    next
      case None
      with True sh Cons.prems obtain evs' where
        p: "poll_loop timeout ts = Some (evs', r)" and e: "evs = Sleep # evs'"
        by (auto split: option.splits)
      from Cons.IH [OF p] Cons.prems obtain k where "evs' = replicate k Sleep @ [CloseInterface]"
        by auto
      with e have "evs = replicate (Suc k) Sleep @ [CloseInterface]" by simp
      then show ?thesis by blast
    qed
  qed
qed

text \<open>
  Claim C7 at a failing input. The session is opened, the first iteration shows nothing,
  and the second raises while the interface is read: the probe returns \<open>None\<close> through the
  \<open>except\<close> branch and \<open>interface.close()\<close> is never called. (On the return paths without an
  exception the interface is closed last: \<open>poll_loop_closes\<close>.)
\<close>

theorem probe_exception_skips_close:
  "query_meshtastic_info True
      (\<lambda>p. Connected [tick_at 0 (Shows (iface_at None None)), tick_at (1 / 5) Raises])
      ''/dev/ttyUSB0'' 10 =
     Some ([OpenInterface ''/dev/ttyUSB0'', Sleep], None) \<and>
   CloseInterface \<notin> set [OpenInterface ''/dev/ttyUSB0'', Sleep]"
  by (simp add: query_meshtastic_info_def tick_at_def iface_at_def identify_def)

end
